theory Spec2Isabelle
  imports Main "HOL-Library.Multiset"
begin

section \<open>Python floats: IEEE-754 binary64, round to nearest, ties to even\<close>

text \<open>
  Every number of \<^verbatim>\<open>app.py\<close> is a Python \<^verbatim>\<open>float\<close>. A float is modelled by its
  sign, its integer significand and its binary exponent: \<open>Num s m e\<close> stands for
  \<open>(-1)\<^sup>s * m * 2\<^sup>e\<close>. The results of the operations below are in the canonical form
  of a binary64 (\<open>m < 2\<^sup>5\<^sup>3\<close>, \<open>-1074 \<le> e \<le> 971\<close>, and \<open>2\<^sup>5\<^sup>2 \<le> m\<close> unless
  \<open>e = -1074\<close>; see \<open>is_double_round_ratio\<close>), so that two results are the same value
  of this type exactly when the two floats have the same bits (all NaNs are identified).
\<close>

datatype double = Num bool nat int | Infinity bool | NaN

datatype py_error = ZeroDivisionError | OperationalError | JSONDecodeError | KeyError | TypeError

fun bit_length :: "nat \<Rightarrow> nat" where
  "bit_length n = (if n = 0 then 0 else Suc (bit_length (n div 2)))"

declare bit_length.simps [simp del]

definition round_half_even :: "nat \<Rightarrow> nat \<Rightarrow> nat \<Rightarrow> nat" where
  \<comment> \<open>quotient \<open>q\<close> and remainder \<open>r\<close> of a division by \<open>D\<close>, rounded to the nearest
      integer, a tie going to the even one\<close>
  "round_half_even q r D =
     (if 2 * r < D then q
      else if D < 2 * r then q + 1
      else if even q then q else q + 1)"

definition rne :: "nat \<Rightarrow> nat \<Rightarrow> nat" where
  \<comment> \<open>the integer nearest to \<open>N / D\<close>\<close>
  "rne N D = round_half_even (N div D) (N mod D) D"

definition scale_num :: "nat \<Rightarrow> int \<Rightarrow> int \<Rightarrow> nat" where
  \<comment> \<open>numerator of \<open>(n / d) * 2\<^sup>e / 2\<^sup>E\<close>\<close>
  "scale_num n e E = n * 2 ^ nat (e - E)"

definition scale_den :: "nat \<Rightarrow> int \<Rightarrow> int \<Rightarrow> nat" where
  \<comment> \<open>denominator of \<open>(n / d) * 2\<^sup>e / 2\<^sup>E\<close>\<close>
  "scale_den d e E = d * 2 ^ nat (E - e)"

definition normalise :: "bool \<Rightarrow> nat \<Rightarrow> int \<Rightarrow> double" where
  \<comment> \<open>a significand rounded up to \<open>2\<^sup>5\<^sup>3\<close> moves to the next exponent; an exponent above
      971 is an overflow\<close>
  "normalise s m E =
     (if m = 2 ^ 53
      then (if 971 < E + 1 then Infinity s else Num s (2 ^ 52) (E + 1))
      else (if 971 < E then Infinity s else Num s m E))"

definition round_at :: "bool \<Rightarrow> nat \<Rightarrow> nat \<Rightarrow> int \<Rightarrow> int \<Rightarrow> double" where
  \<comment> \<open>\<open>(n / d) * 2\<^sup>e\<close> rounded to a multiple of \<open>2\<^sup>E\<close>\<close>
  "round_at s n d e E = normalise s (rne (scale_num n e E) (scale_den d e E)) E"

definition exponent_from :: "nat \<Rightarrow> nat \<Rightarrow> int \<Rightarrow> int \<Rightarrow> int" where
  \<comment> \<open>the exponent that leaves 53 bits, from an estimate that is right or one too small\<close>
  "exponent_from n d e E0 =
     (if 2 ^ 53 * scale_den d e E0 \<le> scale_num n e E0 then E0 + 1 else E0)"

definition round_ratio :: "bool \<Rightarrow> nat \<Rightarrow> nat \<Rightarrow> int \<Rightarrow> double" where
  \<comment> \<open>the binary64 nearest to \<open>(-1)\<^sup>s * (n / d) * 2\<^sup>e\<close>, for \<open>d > 0\<close>\<close>
  "round_ratio s n d e =
     (if n = 0 then Num s 0 (- 1074)
      else round_at s n d e
             (exponent_from n d e
               (max (int (bit_length n) - int (bit_length d) + e - 53) (- 1074))))"

definition is_double :: "double \<Rightarrow> bool" where
  "is_double x =
     (case x of
        Num s m e \<Rightarrow> m < 2 ^ 53 \<and> - 1074 \<le> e \<and> e \<le> 971 \<and> (2 ^ 52 \<le> m \<or> e = - 1074)
      | _ \<Rightarrow> True)"

definition float_of_int :: "nat \<Rightarrow> double" where
  \<comment> \<open>a non-negative \<^verbatim>\<open>int\<close> operand, converted as Python does before the operation\<close>
  "float_of_int n = round_ratio False n 1 0"

definition decimal :: "nat \<Rightarrow> int \<Rightarrow> double" where
  \<comment> \<open>the literal with digits \<open>n\<close> and \<open>k\<close> of them after the point: \<open>n / 10\<^sup>k\<close>, rounded\<close>
  "decimal n k = round_ratio False n (10 ^ nat k) 0"

definition signed :: "bool \<Rightarrow> nat \<Rightarrow> int" where
  "signed s m = (if s then - int m else int m)"

definition aligned :: "bool \<Rightarrow> nat \<Rightarrow> int \<Rightarrow> int \<Rightarrow> int" where
  \<comment> \<open>\<open>(-1)\<^sup>s * m * 2\<^sup>e\<close> as a multiple of \<open>2\<^sup>k\<close>, for \<open>k \<le> e\<close>\<close>
  "aligned s m e k = signed s m * 2 ^ nat (e - k)"

fun fmul :: "double \<Rightarrow> double \<Rightarrow> double" where
  "fmul NaN y = NaN"
| "fmul x NaN = NaN"
| "fmul (Infinity s) (Infinity s') = Infinity (s \<noteq> s')"
| "fmul (Infinity s) (Num s' m' e') = (if m' = 0 then NaN else Infinity (s \<noteq> s'))"
| "fmul (Num s m e) (Infinity s') = (if m = 0 then NaN else Infinity (s \<noteq> s'))"
| "fmul (Num s m e) (Num s' m' e') = round_ratio (s \<noteq> s') (m * m') 1 (e + e')"

definition add_aligned :: "bool \<Rightarrow> bool \<Rightarrow> int \<Rightarrow> int \<Rightarrow> double" where
  \<comment> \<open>the sum \<open>i * 2\<^sup>k\<close> of two floats with signs \<open>s\<close> and \<open>s'\<close>; an exact zero is
      negative only if both are\<close>
  "add_aligned s s' i k =
     (if i = 0 then Num (s \<and> s') 0 (- 1074) else round_ratio (i < 0) (nat \<bar>i\<bar>) 1 k)"

fun fadd :: "double \<Rightarrow> double \<Rightarrow> double" where
  "fadd NaN y = NaN"
| "fadd x NaN = NaN"
| "fadd (Infinity s) (Infinity s') = (if s = s' then Infinity s else NaN)"
| "fadd (Infinity s) (Num s' m' e') = Infinity s"
| "fadd (Num s m e) (Infinity s') = Infinity s'"
| "fadd (Num s m e) (Num s' m' e') =
     add_aligned s s' (aligned s m e (min e e') + aligned s' m' e' (min e e')) (min e e')"

fun fdiv :: "double \<Rightarrow> double \<Rightarrow> double" where
  "fdiv NaN y = NaN"
| "fdiv x NaN = NaN"
| "fdiv (Infinity s) (Infinity s') = NaN"
| "fdiv (Infinity s) (Num s' m' e') = Infinity (s \<noteq> s')"
| "fdiv (Num s m e) (Infinity s') = Num (s \<noteq> s') 0 (- 1074)"
| "fdiv (Num s m e) (Num s' m' e') =
     (if m' = 0 then (if m = 0 then NaN else Infinity (s \<noteq> s'))
      else round_ratio (s \<noteq> s') m m' (e - e'))"

fun is_zero :: "double \<Rightarrow> bool" where
  "is_zero (Num s m e) = (m = 0)"
| "is_zero _ = False"

definition py_truediv :: "double \<Rightarrow> double \<Rightarrow> py_error + double" where
  \<comment> \<open>Python's \<^verbatim>\<open>/\<close> on floats raises on a zero divisor, whatever the dividend\<close>
  "py_truediv x y = (if is_zero y then Inl ZeroDivisionError else Inr (fdiv x y))"

fun fle :: "double \<Rightarrow> double \<Rightarrow> bool" where
  "fle NaN y = False"
| "fle x NaN = False"
| "fle (Infinity s) (Infinity s') = (if s then True else \<not> s')"
| "fle (Infinity s) (Num s' m' e') = s"
| "fle (Num s m e) (Infinity s') = (\<not> s')"
| "fle (Num s m e) (Num s' m' e') =
     (aligned s m e (min e e') \<le> aligned s' m' e' (min e e'))"

fun flt :: "double \<Rightarrow> double \<Rightarrow> bool" where
  "flt NaN y = False"
| "flt x NaN = False"
| "flt (Infinity s) (Infinity s') = (if s then \<not> s' else False)"
| "flt (Infinity s) (Num s' m' e') = s"
| "flt (Num s m e) (Infinity s') = (\<not> s')"
| "flt (Num s m e) (Num s' m' e') =
     (aligned s m e (min e e') < aligned s' m' e' (min e e'))"

definition fgt :: "double \<Rightarrow> double \<Rightarrow> bool" where
  "fgt x y = flt y x"

definition fge :: "double \<Rightarrow> double \<Rightarrow> bool" where
  "fge x y = fle y x"


section \<open>Factors and sidebar inputs\<close>

definition and_then :: "py_error + 'a \<Rightarrow> ('a \<Rightarrow> py_error + 'b) \<Rightarrow> py_error + 'b" where
  \<comment> \<open>sequencing: an exception raised by the first step is the outcome\<close>
  "and_then r f = (case r of Inl err \<Rightarrow> Inl err | Inr v \<Rightarrow> f v)"

definition getitem :: "(string \<times> 'v) list \<Rightarrow> string \<Rightarrow> py_error + 'v" where
  \<comment> \<open>\<^verbatim>\<open>d[k]\<close> on a dict\<close>
  "getitem d k = (case map_of d k of None \<Rightarrow> Inl KeyError | Some v \<Rightarrow> Inr v)"

definition EMISSION_FACTORS :: "(string \<times> double) list" where
  "EMISSION_FACTORS =
     [(''mile_driven'', decimal 404 3),
      (''km_driven'', decimal 251 3),
      (''beef_kg'', decimal 270 1),
      (''chicken_kg'', decimal 69 1),
      (''flight_km'', decimal 115 3),
      (''bus_km'', decimal 89 3),
      (''shopping_usd'', decimal 6 1)]"

definition Custom :: string where
  \<comment> \<open>the key \<^verbatim>\<open>Custom\<close> followed by U+2026, in UTF-8\<close>
  "Custom = ''Custom'' @ [CHR 0xE2, CHR 0x80, CHR 0xA6]"

definition COUNTRY_GRID_FACTORS :: "(string \<times> double option) list" where
  "COUNTRY_GRID_FACTORS =
     [(''Global average'', Some (decimal 92 2)),
      (''Nigeria'', Some (decimal 80 2)),
      (Custom, None)]"

text \<open>
  One run of the script reads the sidebar widgets. The record holds what each widget
  returns; a widget that the run does not create (the miles input when the unit is km,
  the custom grid input when a preset is chosen, the USD input when the currency is NGN,
  and the other way round) is not read by the definitions below.
\<close>

record sidebar =
  distance_unit :: string
  currency :: string
  miles_widget :: double
  km_widget :: double
  flight_km_per_year :: double
  bus_km_per_week :: double
  country_choice :: string
  custom_grid_widget :: double
  kwh_per_month :: double
  beef_kg_per_week :: double
  chicken_kg_per_week :: double
  usd_widget :: double
  ngn_per_month :: double
  fx_rate :: double

definition zero :: double where
  \<comment> \<open>the literal \<^verbatim>\<open>0.0\<close>\<close>
  "zero = decimal 0 1"

definition miles_per_week :: "sidebar \<Rightarrow> double" where
  "miles_per_week w = (if distance_unit w = ''miles'' then miles_widget w else zero)"

definition km_per_week :: "sidebar \<Rightarrow> double" where
  "km_per_week w = (if distance_unit w = ''miles'' then zero else km_widget w)"

definition car_per_week_kg :: "sidebar \<Rightarrow> py_error + double" where
  "car_per_week_kg w =
     (if distance_unit w = ''miles''
      then and_then (getitem EMISSION_FACTORS ''mile_driven'')
             (\<lambda>f. Inr (fmul (miles_per_week w) f))
      else and_then (getitem EMISSION_FACTORS ''km_driven'')
             (\<lambda>f. Inr (fmul (km_per_week w) f)))"

definition selected_grid_factor :: "sidebar \<Rightarrow> py_error + double option" where
  "selected_grid_factor w =
     (if country_choice w = Custom then Inr (Some (custom_grid_widget w))
      else getitem COUNTRY_GRID_FACTORS (country_choice w))"

definition spend_usd :: "sidebar \<Rightarrow> py_error + double" where
  "spend_usd w =
     (if currency w = ''USD'' then Inr (usd_widget w)
      else py_truediv (ngn_per_month w) (fx_rate w))"

section \<open>Calculations\<close>

definition transport_total :: "double \<Rightarrow> double \<Rightarrow> double \<Rightarrow> py_error + double" where
  "transport_total car_kg flight_km bus_km =
     and_then (getitem EMISSION_FACTORS ''flight_km'') (\<lambda>ff.
     and_then (getitem EMISSION_FACTORS ''bus_km'') (\<lambda>fb.
       Inr (fadd (fadd (fmul car_kg (float_of_int 52)) (fmul flight_km ff))
                 (fmul (fmul bus_km (float_of_int 52)) fb))))"

definition electricity_total :: "double \<Rightarrow> double option \<Rightarrow> py_error + double" where
  \<comment> \<open>a factor \<^verbatim>\<open>None\<close> cannot be multiplied\<close>
  "electricity_total kwh grid =
     (case grid of
        None \<Rightarrow> Inl TypeError
      | Some g \<Rightarrow> Inr (fmul (fmul kwh (float_of_int 12)) g))"

definition diet_total :: "double \<Rightarrow> double \<Rightarrow> py_error + double" where
  "diet_total beef chicken =
     and_then (getitem EMISSION_FACTORS ''beef_kg'') (\<lambda>fb.
     and_then (getitem EMISSION_FACTORS ''chicken_kg'') (\<lambda>fc.
       Inr (fadd (fmul (fmul beef (float_of_int 52)) fb)
                 (fmul (fmul chicken (float_of_int 52)) fc))))"

definition shopping_total :: "double \<Rightarrow> py_error + double" where
  "shopping_total usd =
     and_then (getitem EMISSION_FACTORS ''shopping_usd'') (\<lambda>fs.
       Inr (fmul (fmul usd (float_of_int 12)) fs))"

definition grand_total_kg :: "double \<Rightarrow> double \<Rightarrow> double \<Rightarrow> double \<Rightarrow> double" where
  "grand_total_kg transport electricity diet shopping =
     fadd (fadd (fadd transport electricity) diet) shopping"

definition grand_total_t :: "double \<Rightarrow> py_error + double" where
  "grand_total_t kg = py_truediv kg (float_of_int 1000)"

text \<open>
  The quantities of one run, as the one-row frame \<^verbatim>\<open>result_df\<close> collects them; the
  fields are its columns.
\<close>

record result_row =
  Transport_kg :: double
  Electricity_kg :: double
  Diet_kg :: double
  Shopping_kg :: double
  Annual_kg :: double
  Annual_tonnes :: double
  Daily_kg :: double
  Weekly_kg :: double
  Monthly_kg :: double

definition result_df :: "sidebar \<Rightarrow> py_error + result_row" where
  "result_df w =
     and_then (car_per_week_kg w) (\<lambda>car_kg.
     and_then (selected_grid_factor w) (\<lambda>grid.
     and_then (spend_usd w) (\<lambda>usd.
     and_then (transport_total car_kg (flight_km_per_year w) (bus_km_per_week w)) (\<lambda>t.
     and_then (electricity_total (kwh_per_month w) grid) (\<lambda>e.
     and_then (diet_total (beef_kg_per_week w) (chicken_kg_per_week w)) (\<lambda>d.
     and_then (shopping_total usd) (\<lambda>s.
     and_then (grand_total_t (grand_total_kg t e d s)) (\<lambda>tonnes.
     and_then (py_truediv (grand_total_kg t e d s) (float_of_int 365)) (\<lambda>daily.
     and_then (py_truediv (grand_total_kg t e d s) (float_of_int 52)) (\<lambda>weekly.
     and_then (py_truediv (grand_total_kg t e d s) (float_of_int 12)) (\<lambda>monthly.
       Inr \<lparr>Transport_kg = t, Electricity_kg = e, Diet_kg = d, Shopping_kg = s,
            Annual_kg = grand_total_kg t e d s, Annual_tonnes = tonnes,
            Daily_kg = daily, Weekly_kg = weekly, Monthly_kg = monthly\<rparr>)))))))))))"

section \<open>Suggestions\<close>

definition beef_advice :: string where
  "beef_advice = ''Reduce beef intake or swap with chicken/plant-based options.''"

definition car_advice :: string where
  "car_advice = ''Combine trips, carpool, or consider public transport for some journeys.''"

definition electricity_advice :: string where
  "electricity_advice =
     ''Improve home efficiency: LED bulbs, efficient appliances, and switch off standby loads.''"

definition flight_advice :: string where
  "flight_advice = ''Consider train alternatives for short-haul or offset essential flights.''"

definition fallback_advice :: string where
  \<comment> \<open>the dash is U+2014, in UTF-8\<close>
  "fallback_advice =
     ''Nice balance of activities '' @ [CHR 0xE2, CHR 0x80, CHR 0x94]
       @ '' keep tracking to find small improvements.''"

definition car_rule :: "sidebar \<Rightarrow> bool" where
  "car_rule w =
     (if distance_unit w = ''miles'' then fgt (miles_per_week w) (float_of_int 100)
      else fgt (km_per_week w) (float_of_int 160))"

definition suggestions :: "sidebar \<Rightarrow> string list" where
  "suggestions w =
     (let s1 = (if fgt (beef_kg_per_week w) (decimal 5 1) then [beef_advice] else []);
          s2 = (if car_rule w then s1 @ [car_advice] else s1);
          s3 = (if fgt (kwh_per_month w) (float_of_int 200) then s2 @ [electricity_advice] else s2);
          s4 = (if fgt (flight_km_per_year w) (float_of_int 3000) then s3 @ [flight_advice] else s3)
      in if s4 = [] then [fallback_advice] else s4)"

section \<open>Run history store\<close>

text \<open>
  The payloads are dicts of floats and strings. A \<^verbatim>\<open>TEXT\<close> column holds either what
  \<^verbatim>\<open>json.dumps\<close> wrote for such a value, kept here as the value itself, or some other
  text, which \<^verbatim>\<open>json.loads\<close> rejects. The keys of an object are distinct.
\<close>

datatype json = JNull | JFloat double | JStr string | JObject "(string \<times> json) list"

datatype json_text = Dumped json | Malformed string

definition json_dumps :: "json \<Rightarrow> json_text" where
  "json_dumps v = Dumped v"

definition json_loads :: "json_text \<Rightarrow> py_error + json" where
  "json_loads t = (case t of Dumped v \<Rightarrow> Inr v | Malformed s \<Rightarrow> Inl JSONDecodeError)"

definition json_getitem :: "json \<Rightarrow> string \<Rightarrow> py_error + json" where
  \<comment> \<open>\<^verbatim>\<open>v[k]\<close> with a string key: only a dict can be subscripted so\<close>
  "json_getitem v k = (case v of JObject d \<Rightarrow> getitem d k | _ \<Rightarrow> Inl TypeError)"

record run =
  row_id :: nat
  timestamp :: string
  inputs_json :: json_text
  totals_json :: json_text

text \<open>
  The table \<^verbatim>\<open>runs\<close>: its rows in the order of their insertion, and the largest id
  ever given, which \<^verbatim>\<open>AUTOINCREMENT\<close> keeps.
\<close>

record runs_table =
  rows :: "run list"
  sqlite_sequence :: nat

text \<open>
  The file \<^verbatim>\<open>footprint_history.db\<close>: it cannot be opened, it does not exist yet, or
  it holds the table.
\<close>

datatype store = Unavailable | Absent | Present runs_table

definition init_db :: "store \<Rightarrow> py_error + runs_table" where
  "init_db st =
     (case st of
        Unavailable \<Rightarrow> Inl OperationalError
      | Absent \<Rightarrow> Inr \<lparr>rows = [], sqlite_sequence = 0\<rparr>
      | Present t \<Rightarrow> Inr t)"

definition next_id :: "runs_table \<Rightarrow> nat" where
  \<comment> \<open>one more than the largest id the table has or ever had\<close>
  "next_id t = Suc (foldr max (map row_id (rows t)) (sqlite_sequence t))"

definition insert_run :: "runs_table \<Rightarrow> string \<Rightarrow> json_text \<Rightarrow> json_text \<Rightarrow> runs_table" where
  "insert_run t ts i tot =
     \<lparr>rows = rows t @ [\<lparr>row_id = next_id t, timestamp = ts, inputs_json = i, totals_json = tot\<rparr>],
      sqlite_sequence = next_id t\<rparr>"

definition save_run :: "store \<Rightarrow> string \<Rightarrow> json \<Rightarrow> json \<Rightarrow> py_error + store" where
  \<comment> \<open>\<open>now\<close> is \<^verbatim>\<open>datetime.utcnow().isoformat()\<close>\<close>
  "save_run st now inputs totals =
     and_then (init_db st) (\<lambda>t.
       Inr (Present (insert_run t now (json_dumps inputs) (json_dumps totals))))"

definition load_runs :: "store \<Rightarrow> py_error + run list" where
  \<comment> \<open>\<^verbatim>\<open>SELECT * FROM runs ORDER BY id DESC\<close>\<close>
  "load_runs st = and_then (init_db st) (\<lambda>t. Inr (rev (sort_key row_id (rows t))))"

definition opened :: "store \<Rightarrow> store" where
  \<comment> \<open>the file after a successful \<^verbatim>\<open>init_db\<close>\<close>
  "opened st = (case st of Absent \<Rightarrow> Present \<lparr>rows = [], sqlite_sequence = 0\<rparr> | _ \<Rightarrow> st)"

text \<open>
  What \<^verbatim>\<open>AUTOINCREMENT\<close> maintains on a table that only \<^verbatim>\<open>save_run\<close> writes: the ids
  grow strictly in the order of insertion.
\<close>

definition wf_table :: "runs_table \<Rightarrow> bool" where
  "wf_table t = sorted_wrt (<) (map row_id (rows t))"


definition totals_payload :: "result_row \<Rightarrow> json" where
  "totals_payload r =
     JObject
       [(''transport_total'', JFloat (Transport_kg r)),
        (''electricity_total'', JFloat (Electricity_kg r)),
        (''diet_total'', JFloat (Diet_kg r)),
        (''shopping_total'', JFloat (Shopping_kg r)),
        (''grand_total_kg'', JFloat (Annual_kg r)),
        (''grand_total_t'', JFloat (Annual_tonnes r))]"

section \<open>The page\<close>

record history_row =
  h_timestamp :: string
  annual_kg :: json
  transport_kg :: json
  electricity_kg :: json
  diet_kg :: json
  shopping_kg :: json

definition parse_row :: "run \<Rightarrow> py_error + history_row" where
  "parse_row row =
     and_then (json_loads (totals_json row)) (\<lambda>totals.
     and_then (json_getitem totals ''grand_total_kg'') (\<lambda>a.
     and_then (json_getitem totals ''transport_total'') (\<lambda>t.
     and_then (json_getitem totals ''electricity_total'') (\<lambda>e.
     and_then (json_getitem totals ''diet_total'') (\<lambda>d.
     and_then (json_getitem totals ''shopping_total'') (\<lambda>s.
       Inr \<lparr>h_timestamp = timestamp row, annual_kg = a, transport_kg = t,
            electricity_kg = e, diet_kg = d, shopping_kg = s\<rparr>))))))"

fun history_loop :: "history_row list \<Rightarrow> run list \<Rightarrow> py_error + history_row list" where
  "history_loop parsed [] = Inr parsed"
| "history_loop parsed (row # rest) =
     and_then (parse_row row) (\<lambda>p. history_loop (parsed @ [p]) rest)"

datatype element =
    Summary double double double double double
  | Breakdown_chart double double double double
  | Saved_notice
  | Download_csv result_row
  | Download_json json_text
  | History_table "history_row list"
  | Trend_line "history_row list"
  | No_history_info
  | Suggestion_list "string list"

text \<open>
  One run of the script from the calculations on: what it has put on the page, the
  exception that ended it, if any, and the file afterwards. Nothing in the script
  catches an exception, so a section that raises ends the run.
\<close>

record page =
  rendered :: "element list"
  raised :: "py_error option"
  store_after :: store

definition emit :: "element \<Rightarrow> page \<Rightarrow> page" where
  "emit x p = p\<lparr>rendered := rendered p @ [x]\<rparr>"

definition fail :: "py_error \<Rightarrow> page \<Rightarrow> page" where
  "fail err p = p\<lparr>raised := Some err\<rparr>"





definition history_section :: "page \<Rightarrow> page" where
  "history_section p =
     (case load_runs (store_after p) of
        Inl err \<Rightarrow> fail err p
      | Inr history_df \<Rightarrow>
          let p1 = p\<lparr>store_after := opened (store_after p)\<rparr>
          in if history_df \<noteq> []
             then (case history_loop [] history_df of
                     Inl err \<Rightarrow> fail err p1
                   | Inr hist_df \<Rightarrow> emit (Trend_line hist_df) (emit (History_table hist_df) p1))
             else emit No_history_info p1)"



section \<open>The formulas as the specification writes them\<close>

definition spec_transport_kg :: "double \<Rightarrow> double \<Rightarrow> double \<Rightarrow> double" where
  "spec_transport_kg car_weekly_kg flight_km_year bus_km_week =
     fadd (fadd (fmul car_weekly_kg (float_of_int 52)) (fmul flight_km_year (decimal 115 3)))
          (fmul (fmul bus_km_week (float_of_int 52)) (decimal 89 3))"

definition spec_electricity_kg :: "double \<Rightarrow> double \<Rightarrow> double" where
  "spec_electricity_kg kwh_month grid_factor =
     fmul (fmul kwh_month (float_of_int 12)) grid_factor"

definition spec_diet_kg :: "double \<Rightarrow> double \<Rightarrow> double" where
  "spec_diet_kg beef_kg_week chicken_kg_week =
     fadd (fmul (fmul beef_kg_week (float_of_int 52)) (decimal 270 1))
          (fmul (fmul chicken_kg_week (float_of_int 52)) (decimal 69 1))"

definition spec_shopping_kg :: "double \<Rightarrow> double" where
  "spec_shopping_kg spend_usd_month =
     fmul (fmul spend_usd_month (float_of_int 12)) (decimal 6 1)"

definition spec_grand_total_kg :: "double \<Rightarrow> double \<Rightarrow> double \<Rightarrow> double \<Rightarrow> double" where
  "spec_grand_total_kg transport_kg' electricity_kg' diet_kg' shopping_kg' =
     fadd (fadd (fadd transport_kg' electricity_kg') diet_kg') shopping_kg'"

definition spec_grand_total_t :: "double \<Rightarrow> double" where
  "spec_grand_total_t kg = fdiv kg (float_of_int 1000)"

section \<open>Sample inputs\<close>

definition default_sidebar :: sidebar where
  \<comment> \<open>the widgets at the values the script gives them\<close>
  "default_sidebar =
     \<lparr>distance_unit = ''km'', currency = ''NGN'',
      miles_widget = float_of_int 50, km_widget = float_of_int 80,
      flight_km_per_year = float_of_int 1000, bus_km_per_week = float_of_int 10,
      country_choice = ''Global average'', custom_grid_widget = decimal 60 2,
      kwh_per_month = float_of_int 150,
      beef_kg_per_week = decimal 3 1, chicken_kg_per_week = decimal 5 1,
      usd_widget = float_of_int 100, ngn_per_month = float_of_int 150000,
      fx_rate = float_of_int 1500\<rparr>"

definition zero_sidebar :: "string \<Rightarrow> sidebar" where
  \<comment> \<open>every quantity zero, in the given distance unit\<close>
  "zero_sidebar unit =
     \<lparr>distance_unit = unit, currency = ''USD'',
      miles_widget = zero, km_widget = zero,
      flight_km_per_year = zero, bus_km_per_week = zero,
      country_choice = ''Nigeria'', custom_grid_widget = zero,
      kwh_per_month = zero, beef_kg_per_week = zero, chicken_kg_per_week = zero,
      usd_widget = zero, ngn_per_month = zero, fx_rate = decimal 10 1\<rparr>"

text \<open>The file after two saves into a fresh directory.\<close>

definition two_saves :: store where
  "two_saves =
     (case save_run Absent ''2024-05-01T10:00:00'' (JObject []) (JObject []) of
        Inl err \<Rightarrow> Unavailable
      | Inr st \<Rightarrow>
          (case save_run st ''2024-05-02T10:00:00'' (JObject []) (JObject []) of
             Inl err \<Rightarrow> Unavailable
           | Inr st' \<Rightarrow> st'))"

definition two_saves_table :: runs_table where
  "two_saves_table =
     \<lparr>rows = [\<lparr>row_id = 1, timestamp = ''2024-05-01T10:00:00'',
                inputs_json = Dumped (JObject []), totals_json = Dumped (JObject [])\<rparr>,
              \<lparr>row_id = 2, timestamp = ''2024-05-02T10:00:00'',
                inputs_json = Dumped (JObject []), totals_json = Dumped (JObject [])\<rparr>],
      sqlite_sequence = 2\<rparr>"

text \<open>
  A stored run with the totals of an all-zero run, one whose totals column is not JSON,
  and files holding them.
\<close>

definition zero_result :: result_row where
  "zero_result =
     \<lparr>Transport_kg = zero, Electricity_kg = zero, Diet_kg = zero, Shopping_kg = zero,
      Annual_kg = zero, Annual_tonnes = zero, Daily_kg = zero, Weekly_kg = zero,
      Monthly_kg = zero\<rparr>"

definition good_row :: run where
  "good_row =
     \<lparr>row_id = 1, timestamp = ''2024-05-01T10:00:00'', inputs_json = Dumped (JObject []),
      totals_json = json_dumps (totals_payload zero_result)\<rparr>"

definition bad_row :: run where
  "bad_row =
     \<lparr>row_id = 2, timestamp = ''2024-05-02T10:00:00'', inputs_json = Dumped (JObject []),
      totals_json = Malformed ''{''\<rparr>"

definition good_parsed :: history_row where
  "good_parsed =
     \<lparr>h_timestamp = ''2024-05-01T10:00:00'', annual_kg = JFloat zero,
      transport_kg = JFloat zero, electricity_kg = JFloat zero, diet_kg = JFloat zero,
      shopping_kg = JFloat zero\<rparr>"

definition damaged_store :: store where
  "damaged_store = Present \<lparr>rows = [good_row, bad_row], sqlite_sequence = 2\<rparr>"

definition good_store :: store where
  "good_store = Present \<lparr>rows = [good_row], sqlite_sequence = 1\<rparr>"

definition fresh_page :: "store \<Rightarrow> page" where
  "fresh_page st = \<lparr>rendered = [], raised = None, store_after = st\<rparr>"

section \<open>Input constraints\<close>

text \<open>
  The number inputs have \<^verbatim>\<open>min_value=0.0\<close>, the exchange rate has \<^verbatim>\<open>min_value=1.0\<close>,
  and the grid choice is one of the keys of \<^verbatim>\<open>COUNTRY_GRID_FACTORS\<close>.
\<close>

definition is_finite :: "double \<Rightarrow> bool" where
  "is_finite x = (case x of Num s m e \<Rightarrow> True | _ \<Rightarrow> False)"

definition non_negative :: "double \<Rightarrow> bool" where
  \<comment> \<open>\<^verbatim>\<open>x >= 0.0\<close>\<close>
  "non_negative x = fge x zero"

definition number_input_min0 :: "double \<Rightarrow> bool" where
  \<comment> \<open>what a number input with \<^verbatim>\<open>min_value=0.0\<close> can hold\<close>
  "number_input_min0 x = (is_finite x \<and> non_negative x)"

definition electricity_overflow :: "sidebar \<Rightarrow> bool" where
  \<comment> \<open>twelve times the monthly kWh is beyond the largest float and the custom grid
      factor is zero\<close>
  "electricity_overflow w =
     (fmul (kwh_per_month w) (float_of_int 12) = Infinity False
      \<and> country_choice w = Custom \<and> is_zero (custom_grid_widget w))"

definition overflow_sidebar :: sidebar where
  \<comment> \<open>the default inputs with 1e308 kWh a month and a custom grid factor of 0.0\<close>
  "overflow_sidebar =
     default_sidebar\<lparr>country_choice := Custom, custom_grid_widget := zero,
                      kwh_per_month := float_of_int (10 ^ 308)\<rparr>"

definition valid_sidebar :: "sidebar \<Rightarrow> bool" where
  "valid_sidebar w =
     (number_input_min0 (miles_widget w) \<and> number_input_min0 (km_widget w)
      \<and> number_input_min0 (flight_km_per_year w) \<and> number_input_min0 (bus_km_per_week w)
      \<and> map_of COUNTRY_GRID_FACTORS (country_choice w) \<noteq> None
      \<and> number_input_min0 (custom_grid_widget w)
      \<and> number_input_min0 (kwh_per_month w)
      \<and> number_input_min0 (beef_kg_per_week w) \<and> number_input_min0 (chicken_kg_per_week w)
      \<and> number_input_min0 (usd_widget w) \<and> number_input_min0 (ngn_per_month w)
      \<and> is_finite (fx_rate w) \<and> fge (fx_rate w) (decimal 10 1))"

definition positive_constant :: "double \<Rightarrow> bool" where
  "positive_constant c = (non_negative c \<and> is_finite c \<and> \<not> is_zero c)"

section \<open>Evaluation and sequencing lemmas\<close>

lemma bit_length_numeral:
  "bit_length 0 = 0"
  "bit_length 1 = 1"
  "bit_length (Suc 0) = 1"
  "bit_length (numeral Num.One) = 1"
  "bit_length (numeral (Num.Bit0 n)) = bit_length (numeral n) + 1"
  "bit_length (numeral (Num.Bit1 n)) = bit_length (numeral n) + 1"
proof -
  show "bit_length 0 = 0" "bit_length 1 = 1" "bit_length (Suc 0) = 1"
    "bit_length (numeral Num.One) = 1"
    by (simp_all add: bit_length.simps)
  have "numeral (Num.Bit0 n) div 2 = (numeral n :: nat)"
    by (simp add: numeral_Bit0_div_2)
  then show "bit_length (numeral (Num.Bit0 n)) = bit_length (numeral n) + 1"
    by (subst bit_length.simps) simp
  have "numeral (Num.Bit1 n) div 2 = (numeral n :: nat)"
    by (simp add: numeral_Bit1_div_2)
  then show "bit_length (numeral (Num.Bit1 n)) = bit_length (numeral n) + 1"
    by (subst bit_length.simps) simp
qed

lemmas float_eval =
  float_of_int_def decimal_def zero_def round_ratio_def round_at_def exponent_from_def
  normalise_def rne_def round_half_even_def scale_num_def scale_den_def add_aligned_def
  aligned_def signed_def bit_length_numeral

lemma and_then_Inr [simp]: "and_then (Inr v) f = f v"
  by (simp add: and_then_def)

lemma and_then_Inl [simp]: "and_then (Inl err) f = Inl err"
  by (simp add: and_then_def)

lemma and_then_eq_Inr: "and_then r f = Inr v \<longleftrightarrow> (\<exists>x. r = Inr x \<and> f x = Inr v)"
  by (cases r) simp_all

lemma factor_lookups:
  "getitem EMISSION_FACTORS ''mile_driven'' = Inr (decimal 404 3)"
  "getitem EMISSION_FACTORS ''km_driven'' = Inr (decimal 251 3)"
  "getitem EMISSION_FACTORS ''beef_kg'' = Inr (decimal 270 1)"
  "getitem EMISSION_FACTORS ''chicken_kg'' = Inr (decimal 69 1)"
  "getitem EMISSION_FACTORS ''flight_km'' = Inr (decimal 115 3)"
  "getitem EMISSION_FACTORS ''bus_km'' = Inr (decimal 89 3)"
  "getitem EMISSION_FACTORS ''shopping_usd'' = Inr (decimal 6 1)"
  by (simp_all add: getitem_def EMISSION_FACTORS_def)

lemma int_constants:
  "float_of_int 12 = Num False 6755399441055744 (- 49)"
  "float_of_int 52 = Num False 7318349394477056 (- 47)"
  "float_of_int 365 = Num False 6421147906211840 (- 44)"
  "float_of_int 1000 = Num False 8796093022208000 (- 43)"
  by (simp_all add: float_eval)

lemma truediv_constants:
  "py_truediv x (float_of_int 1000) = Inr (fdiv x (float_of_int 1000))"
  "py_truediv x (float_of_int 365) = Inr (fdiv x (float_of_int 365))"
  "py_truediv x (float_of_int 52) = Inr (fdiv x (float_of_int 52))"
  "py_truediv x (float_of_int 12) = Inr (fdiv x (float_of_int 12))"
  by (simp_all add: py_truediv_def int_constants)

lemma transport_total_eq: "transport_total c f b = Inr (spec_transport_kg c f b)"
  by (simp add: transport_total_def spec_transport_kg_def factor_lookups)

lemma diet_total_eq: "diet_total b c = Inr (spec_diet_kg b c)"
  by (simp add: diet_total_def spec_diet_kg_def factor_lookups)

lemma shopping_total_eq: "shopping_total u = Inr (spec_shopping_kg u)"
  by (simp add: shopping_total_def spec_shopping_kg_def factor_lookups)

lemma electricity_total_eq: "electricity_total k (Some g) = Inr (spec_electricity_kg k g)"
  by (simp add: electricity_total_def spec_electricity_kg_def)

lemma default_normalised:
  "car_per_week_kg default_sidebar = Inr (fmul (float_of_int 80) (decimal 251 3))"
  "selected_grid_factor default_sidebar = Inr (Some (decimal 92 2))"
  "spend_usd default_sidebar = Inr (fdiv (float_of_int 150000) (float_of_int 1500))"
    apply (simp add: car_per_week_kg_def default_sidebar_def km_per_week_def factor_lookups)
   apply (simp add: selected_grid_factor_def default_sidebar_def Custom_def getitem_def COUNTRY_GRID_FACTORS_def)
  apply (simp add: spend_usd_def default_sidebar_def py_truediv_def)
  apply (simp add: float_eval)
  done

text \<open>
  Claim C1. For every run, the four category subtotals, the grand total in kg and the
  grand total in tonnes that the script computes are the values of the specification's
  formulas, operation for operation, on the normalised inputs of that run.
\<close>

theorem C1_formulas:
  assumes "car_per_week_kg w = Inr car_weekly_kg"
    and "selected_grid_factor w = Inr (Some grid_factor)"
    and "spend_usd w = Inr spend_usd_month"
  shows "\<exists>r. result_df w = Inr r
    \<and> Transport_kg r = spec_transport_kg car_weekly_kg (flight_km_per_year w) (bus_km_per_week w)
    \<and> Electricity_kg r = spec_electricity_kg (kwh_per_month w) grid_factor
    \<and> Diet_kg r = spec_diet_kg (beef_kg_per_week w) (chicken_kg_per_week w)
    \<and> Shopping_kg r = spec_shopping_kg spend_usd_month
    \<and> Annual_kg r =
        spec_grand_total_kg (Transport_kg r) (Electricity_kg r) (Diet_kg r) (Shopping_kg r)
    \<and> Annual_tonnes r = spec_grand_total_t (Annual_kg r)"
  using assms
  by (simp add: result_df_def transport_total_eq diet_total_eq shopping_total_eq
      electricity_total_eq grand_total_t_def truediv_constants grand_total_kg_def
      spec_grand_total_kg_def spec_grand_total_t_def)


theorem C1_formulas_witness:
  "car_per_week_kg default_sidebar = Inr (fmul (float_of_int 80) (decimal 251 3))
   \<and> selected_grid_factor default_sidebar = Inr (Some (decimal 92 2))
   \<and> spend_usd default_sidebar = Inr (fdiv (float_of_int 150000) (float_of_int 1500))
   \<and> (\<exists>r. result_df default_sidebar = Inr r
      \<and> Transport_kg r =
          spec_transport_kg (fmul (float_of_int 80) (decimal 251 3)) (float_of_int 1000)
            (float_of_int 10)
      \<and> Electricity_kg r = spec_electricity_kg (float_of_int 150) (decimal 92 2)
      \<and> Diet_kg r = spec_diet_kg (decimal 3 1) (decimal 5 1)
      \<and> Shopping_kg r = spec_shopping_kg (fdiv (float_of_int 150000) (float_of_int 1500))
      \<and> Annual_kg r =
          spec_grand_total_kg (Transport_kg r) (Electricity_kg r) (Diet_kg r) (Shopping_kg r)
      \<and> Annual_tonnes r = spec_grand_total_t (Annual_kg r))"
  using C1_formulas [OF default_normalised] default_normalised
  by (simp add: default_sidebar_def)



section \<open>The operations stay within binary64\<close>

text \<open>
  Whatever is rounded, the result has at most 53 significant bits and an exponent in
  range, or is an infinity: every result of an operation is the canonical form of a
  binary64, and so is every quantity of a run.
\<close>

lemma bit_length_upper: "n < 2 ^ bit_length n"
proof (induction n rule: bit_length.induct)
  case (1 n)
  show ?case
  proof (cases "n = 0")
    case True
    then show ?thesis by (simp add: bit_length.simps)
  next
    case False
    with 1 have "n div 2 < 2 ^ bit_length (n div 2)" by simp
    then have "n < 2 * 2 ^ bit_length (n div 2)" by linarith
    with False show ?thesis by (subst bit_length.simps) simp
  qed
qed

lemma bit_length_lower: "n \<noteq> 0 \<Longrightarrow> 2 ^ (bit_length n - 1) \<le> n"
proof (induction n rule: bit_length.induct)
  case (1 n)
  show ?case
  proof (cases "n div 2 = 0")
    case True
    with 1(2) have "n = 1" by linarith
    then show ?thesis by (simp add: bit_length.simps)
  next
    case False
    with 1 have ih: "2 ^ (bit_length (n div 2) - 1) \<le> n div 2" by simp
    from False have pos: "0 < bit_length (n div 2)"
      by (subst bit_length.simps) simp
    have "bit_length n = Suc (bit_length (n div 2))"
      using 1(2) by (subst bit_length.simps) simp
    then have "2 ^ (bit_length n - 1) = 2 * 2 ^ (bit_length (n div 2) - 1)"
      using pos by (cases "bit_length (n div 2)") simp_all
    also have "\<dots> \<le> 2 * (n div 2)" using ih by simp
    also have "\<dots> \<le> n" by simp
    finally show ?thesis .
  qed
qed

lemma rne_le: "0 < D \<Longrightarrow> N \<le> K * D \<Longrightarrow> rne N D \<le> K"
proof -
  assume D: "0 < D" and le: "N \<le> K * D"
  have q: "N div D \<le> K"
    using le D by (metis div_le_mono div_mult_self_is_m)
  show ?thesis
  proof (cases "N div D = K")
    case True
    have "K * D + N mod D = N" using True by (metis div_mult_mod_eq)
    with le have "N mod D = 0" by linarith
    with True D show ?thesis by (simp add: rne_def round_half_even_def)
  next
    case False
    with q have "N div D < K" by simp
    then show ?thesis by (simp add: rne_def round_half_even_def)
  qed
qed

lemma rne_ge: "0 < D \<Longrightarrow> K * D \<le> N \<Longrightarrow> K \<le> rne N D"
proof -
  assume D: "0 < D" and le: "K * D \<le> N"
  have "K \<le> N div D"
    using le D by (metis div_le_mono div_mult_self_is_m)
  then show ?thesis by (simp add: rne_def round_half_even_def)
qed

lemma scale_step:
  "scale_num n e (E + 1) * scale_den d e E * 2 = scale_num n e E * scale_den d e (E + 1)"
proof (cases "E < e")
  case True
  then have "nat (e - E) = Suc (nat (e - (E + 1)))" "nat (E - e) = 0" "nat (E + 1 - e) = 0"
    by simp_all
  then show ?thesis by (simp add: scale_num_def scale_den_def)
next
  case False
  then have "nat (e - E) = 0" "nat (e - (E + 1)) = 0" "nat (E + 1 - e) = Suc (nat (E - e))"
    by simp_all
  then show ?thesis by (simp add: scale_num_def scale_den_def)
qed


lemma bit_length_pos: "n \<noteq> 0 \<Longrightarrow> 0 < bit_length n"
  by (subst bit_length.simps) simp

lemma scaled_below:
  assumes "d \<noteq> 0" and "int (bit_length n) - int (bit_length d) + e - 53 \<le> E0"
  shows "scale_num n e E0 < 2 ^ 54 * scale_den d e E0"
proof -
  let ?a = "bit_length n" and ?b = "bit_length d"
  let ?p = "nat (e - E0)" and ?q = "nat (E0 - e)"
  have b: "0 < ?b" using assms(1) by (rule bit_length_pos)
  have exps: "?a + ?p \<le> 54 + (?b - 1) + ?q" using assms(2) b by linarith
  have "n * 2 ^ ?p < 2 ^ ?a * 2 ^ ?p"
    using bit_length_upper [of n] by simp
  also have "\<dots> = 2 ^ (?a + ?p)" by (simp add: power_add)
  also have "\<dots> \<le> (2::nat) ^ (54 + (?b - 1) + ?q)"
    using exps by (rule power_increasing) simp
  also have "\<dots> = 2 ^ 54 * (2 ^ (?b - 1) * 2 ^ ?q)" by (simp add: power_add)
  also have "\<dots> \<le> 2 ^ 54 * (d * 2 ^ ?q)"
    using bit_length_lower [OF assms(1)] by simp
  finally show ?thesis by (simp add: scale_num_def scale_den_def)
qed

lemma scaled_above:
  assumes "n \<noteq> 0" and "E0 = int (bit_length n) - int (bit_length d) + e - 53"
  shows "2 ^ 52 * scale_den d e E0 \<le> scale_num n e E0"
proof -
  let ?a = "bit_length n" and ?b = "bit_length d"
  let ?p = "nat (e - E0)" and ?q = "nat (E0 - e)"
  have a: "0 < ?a" using assms(1) by (rule bit_length_pos)
  have exps: "52 + ?b + ?q = (?a - 1) + ?p" using assms(2) a by linarith
  have "2 ^ 52 * (d * 2 ^ ?q) \<le> 2 ^ 52 * (2 ^ ?b * 2 ^ ?q)"
    using bit_length_upper [of d] by simp
  also have "\<dots> = 2 ^ (52 + ?b + ?q)" by (simp add: power_add)
  also have "\<dots> = 2 ^ (?a - 1) * 2 ^ ?p" by (simp only: exps power_add)
  also have "\<dots> \<le> n * 2 ^ ?p"
    using bit_length_lower [OF assms(1)] by simp
  finally show ?thesis by (simp add: scale_num_def scale_den_def)
qed

lemma scale_den_pos: "d \<noteq> 0 \<Longrightarrow> 0 < scale_den d e E"
  by (simp add: scale_den_def)

lemma is_double_normalise:
  assumes "m \<le> 2 ^ 53" and "- 1074 \<le> E" and "2 ^ 52 \<le> m \<or> E = - 1074"
  shows "is_double (normalise s m E)"
  using assms by (auto simp: normalise_def is_double_def)

lemma is_double_round_ratio:
  assumes "d \<noteq> 0"
  shows "is_double (round_ratio s n d e)"
proof (cases "n = 0")
  case True
  then show ?thesis by (simp add: round_ratio_def is_double_def)
next
  case False
  define E0 where "E0 = max (int (bit_length n) - int (bit_length d) + e - 53) (- 1074)"
  define E where "E = exponent_from n d e E0"
  define m where "m = rne (scale_num n e E) (scale_den d e E)"
  have rr: "round_ratio s n d e = normalise s m E"
    using False by (simp add: round_ratio_def round_at_def E0_def E_def m_def)
  have below: "scale_num n e E0 < 2 ^ 54 * scale_den d e E0"
    using assms by (rule scaled_below) (simp add: E0_def)
  have D0: "0 < scale_den d e E0" and D: "0 < scale_den d e E"
    using assms by (simp_all add: scale_den_pos)
  have "- 1074 \<le> E0" by (simp add: E0_def)
  then have E_low: "- 1074 \<le> E"
    by (simp add: E_def exponent_from_def)
  have "m \<le> 2 ^ 53 \<and> (2 ^ 52 \<le> m \<or> E = - 1074)"
  proof (cases "2 ^ 53 * scale_den d e E0 \<le> scale_num n e E0")
    case True
    then have E: "E = E0 + 1" by (simp add: E_def exponent_from_def)
    let ?N1 = "scale_num n e (E0 + 1)" and ?D1 = "scale_den d e (E0 + 1)"
    let ?N0 = "scale_num n e E0" and ?D0 = "scale_den d e E0"
    have step: "?N1 * ?D0 * 2 = ?N0 * ?D1" by (rule scale_step)
    have "?N0 * ?D1 \<le> 2 ^ 54 * ?D0 * ?D1"
      using below by (simp add: mult_le_mono1 less_imp_le)
    with step have "?N1 * (?D0 * 2) \<le> (2 ^ 53 * ?D1) * (?D0 * 2)" by (simp add: ac_simps)
    then have up: "?N1 \<le> 2 ^ 53 * ?D1" using D0 by simp
    have "2 ^ 53 * ?D0 * ?D1 \<le> ?N0 * ?D1"
      using True by (simp add: mult_le_mono1)
    with step have "(2 ^ 52 * ?D1) * (?D0 * 2) \<le> ?N1 * (?D0 * 2)" by (simp add: ac_simps)
    then have low: "2 ^ 52 * ?D1 \<le> ?N1" using D0 by simp
    from up low D show ?thesis
      unfolding m_def E by (simp add: rne_le rne_ge)
  next
    case False
    then have E: "E = E0" by (simp add: E_def exponent_from_def)
    from False have up: "scale_num n e E0 \<le> 2 ^ 53 * scale_den d e E0" by simp
    have "2 ^ 52 \<le> m \<or> E = - 1074"
    proof (cases "E0 = - 1074")
      case True
      then show ?thesis using E by simp
    next
      case False
      then have "E0 = int (bit_length n) - int (bit_length d) + e - 53"
        by (simp add: E0_def max_def split: if_splits)
      with \<open>n \<noteq> 0\<close> have "2 ^ 52 * scale_den d e E0 \<le> scale_num n e E0"
        by (rule scaled_above)
      then show ?thesis using D unfolding m_def E by (simp add: rne_ge)
    qed
    with up D show ?thesis unfolding m_def E by (simp add: rne_le)
  qed
  with E_low show ?thesis unfolding rr by (intro is_double_normalise) simp_all
qed

lemma is_double_fmul: "is_double (fmul x y)"
  by (cases x; cases y) (simp_all add: is_double_round_ratio, simp_all add: is_double_def)

lemma is_double_fadd: "is_double (fadd x y)"
  by (cases x; cases y)
    (simp_all add: add_aligned_def is_double_round_ratio, simp_all add: is_double_def)

lemma is_double_fdiv: "is_double (fdiv x y)"
  by (cases x; cases y) (simp_all add: is_double_round_ratio, simp_all add: is_double_def)

lemma is_double_literals: "is_double (float_of_int n)" "is_double (decimal n k)"
  by (simp_all add: float_of_int_def decimal_def is_double_round_ratio)

lemma result_df_is_double:
  assumes "result_df w = Inr r"
  shows "is_double (Transport_kg r)" "is_double (Electricity_kg r)" "is_double (Diet_kg r)"
    "is_double (Shopping_kg r)" "is_double (Annual_kg r)" "is_double (Annual_tonnes r)"
    "is_double (Daily_kg r)" "is_double (Weekly_kg r)" "is_double (Monthly_kg r)"
  using assms
  by (auto simp: result_df_def and_then_eq_Inr transport_total_def electricity_total_def
      diet_total_def shopping_total_def grand_total_kg_def grand_total_t_def py_truediv_def
      is_double_fmul is_double_fadd is_double_fdiv split: option.splits if_splits)

section \<open>Which suggestions are given\<close>

lemma fle_not_flt: "fle x y \<Longrightarrow> \<not> flt y x"
  by (cases x; cases y) (auto simp: Let_def min.commute split: if_splits)

lemma threshold_constants:
  "float_of_int 100 = Num False 7036874417766400 (- 46)"
  "float_of_int 160 = Num False 5629499534213120 (- 45)"
  "float_of_int 200 = Num False 7036874417766400 (- 45)"
  "float_of_int 3000 = Num False 6597069766656000 (- 41)"
  "decimal 5 1 = Num False 4503599627370496 (- 53)"
  "decimal 10 1 = Num False 4503599627370496 (- 52)"
  "zero = Num False 0 (- 1074)"
  by (simp_all add: float_eval)

lemma zero_below_thresholds:
  "fle zero (decimal 5 1)" "fle zero (float_of_int 100)" "fle zero (float_of_int 160)"
  "fle zero (float_of_int 200)" "fle zero (float_of_int 3000)"
  by (simp_all add: threshold_constants aligned_def signed_def Let_def)

lemma advice_distinct:
  "car_advice \<noteq> beef_advice" "car_advice \<noteq> electricity_advice"
  "car_advice \<noteq> flight_advice" "car_advice \<noteq> fallback_advice"
  by (simp_all add: car_advice_def beef_advice_def electricity_advice_def flight_advice_def
      fallback_advice_def)

lemma car_advice_iff: "car_advice \<in> set (suggestions w) \<longleftrightarrow> car_rule w"
  using advice_distinct by (auto simp: suggestions_def Let_def)

lemma signed_zero: "signed s 0 = 0"
  by (simp add: signed_def)

lemma signed_False: "signed False m = int m"
  by (simp add: signed_def)

lemma at_least_one_nonzero: "fge r (decimal 10 1) \<Longrightarrow> \<not> is_zero r"
proof (cases r)
  case (Num s m e)
  show "fge r (decimal 10 1) \<Longrightarrow> \<not> is_zero r"
  proof
    assume ge: "fge r (decimal 10 1)" and "is_zero r"
    then have "m = 0" using Num by simp
    with ge Num show False
      by (simp add: fge_def threshold_constants aligned_def
          signed_zero signed_False mult_le_0_iff Let_def)
  qed
qed simp_all

text \<open>
  Claim C5. When no rule fires (weekly beef at most 0.5 kg, the car distance of the
  selected unit at most its threshold, monthly electricity at most 200 kWh, yearly flight
  distance at most 3000 km), the suggestions are exactly the one fallback message; the
  all-zero inputs are such a case, in either unit.
\<close>

theorem C5_fallback_only:
  assumes "fle (beef_kg_per_week w) (decimal 5 1)"
    and "if distance_unit w = ''miles'' then fle (miles_per_week w) (float_of_int 100)
         else fle (km_per_week w) (float_of_int 160)"
    and "fle (kwh_per_month w) (float_of_int 200)"
    and "fle (flight_km_per_year w) (float_of_int 3000)"
  shows "suggestions w = [fallback_advice]"
proof -
  have "\<not> fgt (beef_kg_per_week w) (decimal 5 1)"
    using assms(1) by (simp add: fgt_def fle_not_flt)
  moreover have "\<not> car_rule w"
    using assms(2) by (simp add: car_rule_def fgt_def fle_not_flt split: if_splits)
  moreover have "\<not> fgt (kwh_per_month w) (float_of_int 200)"
    using assms(3) by (simp add: fgt_def fle_not_flt)
  moreover have "\<not> fgt (flight_km_per_year w) (float_of_int 3000)"
    using assms(4) by (simp add: fgt_def fle_not_flt)
  ultimately show ?thesis
    by (simp add: suggestions_def)
qed

theorem C5_fallback_only_witness:
  "suggestions (zero_sidebar ''km'') = [fallback_advice]
   \<and> suggestions (zero_sidebar ''miles'') = [fallback_advice]"
proof
  show "suggestions (zero_sidebar ''km'') = [fallback_advice]"
    using zero_below_thresholds
    by (intro C5_fallback_only) (simp_all add: zero_sidebar_def km_per_week_def miles_per_week_def)
  show "suggestions (zero_sidebar ''miles'') = [fallback_advice]"
    using zero_below_thresholds
    by (intro C5_fallback_only) (simp_all add: zero_sidebar_def km_per_week_def miles_per_week_def)
qed

text \<open>
  Claim C6. The car rule compares the weekly distance of the selected unit with that
  unit's threshold: with miles selected the advice is given exactly when the miles exceed
  100, otherwise exactly when the km exceed 160; the quantity of the other unit is zero
  and is not above its threshold.
\<close>

theorem C6_car_rule_active_unit:
  "(distance_unit w = ''miles'' \<longrightarrow>
      (car_advice \<in> set (suggestions w) \<longleftrightarrow> fgt (miles_widget w) (float_of_int 100))
      \<and> km_per_week w = zero \<and> \<not> fgt (km_per_week w) (float_of_int 160))
   \<and> (distance_unit w \<noteq> ''miles'' \<longrightarrow>
      (car_advice \<in> set (suggestions w) \<longleftrightarrow> fgt (km_widget w) (float_of_int 160))
      \<and> miles_per_week w = zero \<and> \<not> fgt (miles_per_week w) (float_of_int 100))"
  using zero_below_thresholds
  by (simp add: car_advice_iff car_rule_def miles_per_week_def km_per_week_def fgt_def
      fle_not_flt)

theorem C6_car_rule_active_unit_witness:
  "car_advice \<in> set (suggestions (default_sidebar\<lparr>distance_unit := ''miles'',
                                                 miles_widget := float_of_int 101\<rparr>))
   \<and> km_per_week (default_sidebar\<lparr>distance_unit := ''miles'',
                                    miles_widget := float_of_int 101\<rparr>) = zero
   \<and> car_advice \<notin> set (suggestions default_sidebar)
   \<and> miles_per_week default_sidebar = zero"
proof -
  have fires: "fgt (float_of_int 101) (float_of_int 100)"
    by (simp add: fgt_def float_eval)
  have quiet: "\<not> fgt (float_of_int 80) (float_of_int 160)"
    by (simp add: fgt_def float_eval)
  show ?thesis
    using fires quiet
      C6_car_rule_active_unit [of "default_sidebar\<lparr>distance_unit := ''miles'',
                                                   miles_widget := float_of_int 101\<rparr>"]
      C6_car_rule_active_unit [of default_sidebar]
    by (simp add: default_sidebar_def)
qed

section \<open>Currency\<close>

text \<open>
  Claim C7. With an exchange rate of at least 1.0, a spend entered in NGN gives the same
  float for the shopping subtotal as the quotient of the amount by the rate (the float
  \<^verbatim>\<open>N / R\<close>) entered directly in USD; neither run raises.
\<close>

theorem C7_currency_equivalence:
  assumes "currency w1 \<noteq> ''USD''" and "fge (fx_rate w1) (decimal 10 1)"
    and "currency w2 = ''USD''"
    and "usd_widget w2 = fdiv (ngn_per_month w1) (fx_rate w1)"
  shows "\<exists>kg. and_then (spend_usd w1) shopping_total = Inr kg
           \<and> and_then (spend_usd w2) shopping_total = Inr kg"
  using assms at_least_one_nonzero [OF assms(2)]
  by (simp add: spend_usd_def py_truediv_def shopping_total_eq)


theorem C7_currency_equivalence_witness:
  "fdiv (float_of_int 150000) (float_of_int 1500) = float_of_int 100
   \<and> (\<exists>kg. and_then (spend_usd default_sidebar) shopping_total = Inr kg
        \<and> and_then (spend_usd (default_sidebar\<lparr>currency := ''USD''\<rparr>)) shopping_total
            = Inr kg)"
proof -
  have q: "fdiv (float_of_int 150000) (float_of_int 1500) = float_of_int 100"
    by (simp add: float_eval)
  have ge: "fge (fx_rate default_sidebar) (decimal 10 1)"
    by (simp add: default_sidebar_def fge_def float_eval)
  have "\<exists>kg. and_then (spend_usd default_sidebar) shopping_total = Inr kg
        \<and> and_then (spend_usd (default_sidebar\<lparr>currency := ''USD''\<rparr>)) shopping_total
            = Inr kg"
    using q by (intro C7_currency_equivalence ge) (simp_all add: default_sidebar_def)
  with q show ?thesis by blast
qed

section \<open>Order of the stored runs\<close>

lemma foldr_max_upper: "x \<in> set xs \<Longrightarrow> x \<le> foldr max xs (b::nat)"
  by (induction xs) (auto simp: max_def)

lemma next_id_greater: "r \<in> set (rows t) \<Longrightarrow> row_id r < next_id t"
  using foldr_max_upper [of "row_id r" "map row_id (rows t)" "sqlite_sequence t"]
  by (simp add: next_id_def less_Suc_eq_le)

lemma wf_table_empty: "wf_table \<lparr>rows = [], sqlite_sequence = n\<rparr>"
  by (simp add: wf_table_def)

lemma wf_table_insert: "wf_table t \<Longrightarrow> wf_table (insert_run t ts i tot)"
  by (auto simp: wf_table_def insert_run_def sorted_wrt_append next_id_greater)

lemma save_run_keeps_wf:
  assumes "save_run st now inputs totals = Inr st'"
    and "case st of Present t \<Rightarrow> wf_table t | _ \<Rightarrow> True"
  shows "\<exists>t'. st' = Present t' \<and> wf_table t'"
  using assms
  by (cases st) (auto simp: save_run_def init_db_def wf_table_insert wf_table_empty)

lemma strictly_sorted_ids: "wf_table t \<Longrightarrow> sort_key row_id (rows t) = rows t"
  by (simp add: wf_table_def sort_key_id_if_sorted strict_sorted_imp_sorted)

text \<open>
  Claim C8. On a table written by \<^verbatim>\<open>save_run\<close>, \<^verbatim>\<open>load_runs\<close> returns every stored
  row, the most recent first: the rows in the reverse of their insertion order, which is
  strictly descending by id. With no rows, or with no file yet, it returns the empty
  sequence and no error.
\<close>

theorem C8_load_runs_order:
  assumes "wf_table t"
  shows "load_runs (Present t) = Inr (rev (rows t))
    \<and> mset (rev (rows t)) = mset (rows t)
    \<and> sorted_wrt (\<lambda>a b. row_id b < row_id a) (rev (rows t))
    \<and> (rows t = [] \<longrightarrow> load_runs (Present t) = Inr [])
    \<and> load_runs Absent = Inr []"
proof -
  have "sorted_wrt (\<lambda>a b. row_id a < row_id b) (rows t)"
    using assms by (simp add: wf_table_def sorted_wrt_map)
  then have "sorted_wrt (\<lambda>a b. row_id b < row_id a) (rev (rows t))"
    by (simp add: sorted_wrt_rev)
  then show ?thesis
    using assms by (simp add: load_runs_def init_db_def strictly_sorted_ids)
qed

lemma two_saves_eq: "two_saves = Present two_saves_table"
  by (simp add: two_saves_def two_saves_table_def save_run_def init_db_def insert_run_def
      next_id_def json_dumps_def)

theorem C8_load_runs_order_witness:
  "wf_table two_saves_table
   \<and> load_runs two_saves = Inr (rev (rows two_saves_table))
   \<and> map row_id (rev (rows two_saves_table)) = [2, 1]
   \<and> sorted_wrt (\<lambda>a b. row_id b < row_id a) (rev (rows two_saves_table))
   \<and> load_runs Absent = Inr []"
proof -
  have wf: "wf_table two_saves_table"
    by (simp add: wf_table_def two_saves_table_def)
  from C8_load_runs_order [OF wf] wf show ?thesis
    by (simp add: two_saves_eq) (simp add: two_saves_table_def)
qed

lemma history_loop_fails:
  "row \<in> set rs \<Longrightarrow> parse_row row = Inl err \<Longrightarrow> \<exists>err'. history_loop acc rs = Inl err'"
proof (induction rs arbitrary: acc)
  case Nil
  then show ?case by simp
next
  case (Cons r rs)
  show ?case
  proof (cases "parse_row r")
    case (Inl e)
    then show ?thesis by simp
  next
    case (Inr p)
    with Cons.prems have "row \<in> set rs" by auto
    from Cons.IH [OF this Cons.prems(2)] Inr show ?thesis by simp
  qed
qed

lemma history_loop_ok:
  "list_all2 (\<lambda>row p. parse_row row = Inr p) rs ps \<Longrightarrow> history_loop acc rs = Inr (acc @ ps)"
  by (induction rs ps arbitrary: acc rule: list_all2_induct) simp_all

lemma parse_saved_totals:
  "parse_row \<lparr>row_id = n, timestamp = ts, inputs_json = i,
              totals_json = json_dumps (totals_payload r)\<rparr> =
     Inr \<lparr>h_timestamp = ts, annual_kg = JFloat (Annual_kg r),
          transport_kg = JFloat (Transport_kg r), electricity_kg = JFloat (Electricity_kg r),
          diet_kg = JFloat (Diet_kg r), shopping_kg = JFloat (Shopping_kg r)\<rparr>"
  by (simp add: parse_row_def json_dumps_def json_loads_def totals_payload_def
      json_getitem_def getitem_def)

section \<open>Failures of the store and of parsing\<close>

lemma parse_good_row: "parse_row good_row = Inr good_parsed"
  by (simp add: good_row_def good_parsed_def zero_result_def parse_saved_totals)

lemma parse_bad_row: "parse_row bad_row = Inl JSONDecodeError"
  by (simp add: bad_row_def parse_row_def json_loads_def)

lemma load_damaged: "load_runs damaged_store = Inr [bad_row, good_row]"
  by (simp add: load_runs_def damaged_store_def init_db_def good_row_def bad_row_def)

lemma load_good: "load_runs good_store = Inr [good_row]"
  by (simp add: load_runs_def good_store_def init_db_def)





text \<open>
  Claim C4, as the code has it. When the totals of a stored record cannot be parsed
  (\<^verbatim>\<open>json.loads\<close> raises, or a key is missing), the history loop raises at that record
  and nothing catches it: the section renders nothing and the run ends there. When every
  record parses, all of them are listed, in the order of \<^verbatim>\<open>load_runs\<close>.
\<close>

theorem C4_unparsable_row_aborts:
  assumes "load_runs (store_after p) = Inr rs"
  shows "((\<exists>row \<in> set rs. \<exists>err. parse_row row = Inl err) \<longrightarrow>
            (\<exists>err'. raised (history_section p) = Some err')
            \<and> rendered (history_section p) = rendered p)
     \<and> (\<forall>hs. rs \<noteq> [] \<and> list_all2 (\<lambda>row h. parse_row row = Inr h) rs hs \<longrightarrow>
            rendered (history_section p) = rendered p @ [History_table hs, Trend_line hs]
            \<and> raised (history_section p) = raised p)"
proof (intro conjI impI allI)
  assume "\<exists>row \<in> set rs. \<exists>err. parse_row row = Inl err"
  then obtain row err where "row \<in> set rs" "parse_row row = Inl err" by blast
  then obtain err' where loop: "history_loop [] rs = Inl err'"
    using history_loop_fails by blast
  moreover from \<open>row \<in> set rs\<close> have "rs \<noteq> []" by auto
  ultimately show "\<exists>err'. raised (history_section p) = Some err'"
    and "rendered (history_section p) = rendered p"
    using assms by (simp_all add: history_section_def fail_def)
next
  fix hs
  assume "rs \<noteq> [] \<and> list_all2 (\<lambda>row h. parse_row row = Inr h) rs hs"
  then have "rs \<noteq> []" and "history_loop [] rs = Inr hs"
    using history_loop_ok [of rs hs "[]"] by simp_all
  then show "rendered (history_section p) = rendered p @ [History_table hs, Trend_line hs]"
    and "raised (history_section p) = raised p"
    using assms by (simp_all add: history_section_def emit_def)
qed

theorem C4_unparsable_row_aborts_witness:
  "raised (history_section (fresh_page damaged_store)) = Some JSONDecodeError
   \<and> rendered (history_section (fresh_page damaged_store)) = []
   \<and> rendered (history_section (fresh_page good_store)) =
       [History_table [good_parsed], Trend_line [good_parsed]]
   \<and> raised (history_section (fresh_page good_store)) = None"
proof -
  have d: "load_runs (store_after (fresh_page damaged_store)) = Inr [bad_row, good_row]"
    by (simp add: fresh_page_def load_damaged)
  have g: "load_runs (store_after (fresh_page good_store)) = Inr [good_row]"
    by (simp add: fresh_page_def load_good)
  have "raised (history_section (fresh_page damaged_store)) = Some JSONDecodeError"
    using d by (simp add: history_section_def parse_bad_row fail_def)
  moreover have "rendered (history_section (fresh_page damaged_store)) = []"
    using C4_unparsable_row_aborts [OF d] parse_bad_row by (auto simp: fresh_page_def)
  moreover have "rendered (history_section (fresh_page good_store)) =
       [History_table [good_parsed], Trend_line [good_parsed]]
     \<and> raised (history_section (fresh_page good_store)) = None"
    using C4_unparsable_row_aborts [OF g, THEN conjunct2, THEN spec, of "[good_parsed]"]
      parse_good_row
    by (simp add: fresh_page_def)
  ultimately show ?thesis by simp
qed

text \<open>
  The claim as stated asks for the record to be skipped and the others to be listed. With
  one good record and one whose totals are not JSON, the section lists nothing and ends
  the run with the decoding error.
\<close>

theorem C4_counterexample:
  "parse_row bad_row = Inl JSONDecodeError
   \<and> parse_row good_row = Inr good_parsed
   \<and> load_runs damaged_store = Inr [bad_row, good_row]
   \<and> history_section (fresh_page damaged_store) =
       \<lparr>rendered = [], raised = Some JSONDecodeError, store_after = damaged_store\<rparr>
   \<and> History_table [good_parsed] \<notin> set (rendered (history_section (fresh_page damaged_store)))"
  by (simp add: parse_good_row parse_bad_row load_damaged history_section_def fresh_page_def
      fail_def) (simp add: opened_def damaged_store_def)

section \<open>Signs of the results\<close>

lemma zero_eq: "zero = Num False 0 (- 1074)"
  by (simp add: float_eval)

lemma non_negative_simps [simp]:
  "non_negative (Num s m e) \<longleftrightarrow> (s \<longrightarrow> m = 0)"
  "non_negative (Infinity s) \<longleftrightarrow> \<not> s"
  "non_negative NaN \<longleftrightarrow> False"
  by (auto simp: non_negative_def fge_def zero_eq aligned_def signed_def zero_le_mult_iff)

lemma round_ratio_cases:
  "round_ratio s n d e = Infinity s \<or> (\<exists>m E. round_ratio s n d e = Num s m E)"
  by (simp add: round_ratio_def round_at_def normalise_def)

lemma round_ratio_0: "round_ratio s 0 d e = Num s 0 (- 1074)"
  by (simp add: round_ratio_def)

lemma non_negative_round: "non_negative (round_ratio False n d e)"
  using round_ratio_cases [of False n d e] by auto

lemma non_negative_fmul:
  assumes "non_negative x" and "non_negative y"
    and "\<not> (x = Infinity False \<and> is_zero y)" and "\<not> (is_zero x \<and> y = Infinity False)"
  shows "non_negative (fmul x y)"
proof (cases x)
  case x: (Num s m e)
  show ?thesis
  proof (cases y)
    case y: (Num s' m' e')
    show ?thesis
    proof (cases "m * m' = 0")
      case True
      then show ?thesis using x y by (auto simp add: round_ratio_0)
    next
      case False
      with assms x y have "\<not> s" "\<not> s'" by auto
      then show ?thesis using x y by (simp add: non_negative_round)
    qed
  next
    case (Infinity s')
    then show ?thesis using assms x by auto
  next
    case NaN
    then show ?thesis using assms by simp
  qed
next
  case x: (Infinity s)
  then show ?thesis using assms by (cases y) auto
next
  case NaN
  then show ?thesis using assms by simp
qed

lemma non_negative_fadd:
  assumes "non_negative x" and "non_negative y"
  shows "non_negative (fadd x y)"
proof (cases x)
  case x: (Num s m e)
  show ?thesis
  proof (cases y)
    case y: (Num s' m' e')
    let ?k = "min e e'"
    let ?i = "aligned s m e ?k + aligned s' m' e' ?k"
    have "0 \<le> aligned s m e ?k" "0 \<le> aligned s' m' e' ?k"
      using assms x y by (auto simp: aligned_def signed_def)
    then have "0 \<le> ?i" by simp
    then have "non_negative (add_aligned s s' ?i ?k)"
      by (simp add: add_aligned_def non_negative_round)
    then show ?thesis using x y by simp
  next
    case (Infinity s')
    then show ?thesis using assms x by auto
  next
    case NaN
    then show ?thesis using assms by simp
  qed
next
  case x: (Infinity s)
  then show ?thesis using assms by (cases y) auto
next
  case NaN
  then show ?thesis using assms by simp
qed

lemma non_negative_fdiv:
  assumes "non_negative x" and "non_negative y" and "is_finite y" and "\<not> is_zero y"
  shows "non_negative (fdiv x y)"
proof -
  from assms obtain m' e' where y: "y = Num False m' e'" "m' \<noteq> 0"
    by (cases y) (auto simp: is_finite_def)
  show ?thesis
  proof (cases x)
    case x: (Num s m e)
    show ?thesis
    proof (cases "m = 0")
      case True
      then show ?thesis using x y by (simp add: round_ratio_0)
    next
      case False
      with assms x have "\<not> s" by auto
      then show ?thesis using x y by (simp add: non_negative_round)
    qed
  next
    case (Infinity s)
    then show ?thesis using assms y by auto
  next
    case NaN
    then show ?thesis using assms by simp
  qed
qed

lemma result_df_eq:
  assumes "car_per_week_kg w = Inr car" and "selected_grid_factor w = Inr (Some g)"
    and "spend_usd w = Inr usd"
  shows "result_df w =
    Inr \<lparr>Transport_kg = spec_transport_kg car (flight_km_per_year w) (bus_km_per_week w),
         Electricity_kg = spec_electricity_kg (kwh_per_month w) g,
         Diet_kg = spec_diet_kg (beef_kg_per_week w) (chicken_kg_per_week w),
         Shopping_kg = spec_shopping_kg usd,
         Annual_kg = spec_grand_total_kg
           (spec_transport_kg car (flight_km_per_year w) (bus_km_per_week w))
           (spec_electricity_kg (kwh_per_month w) g)
           (spec_diet_kg (beef_kg_per_week w) (chicken_kg_per_week w))
           (spec_shopping_kg usd),
         Annual_tonnes = fdiv (spec_grand_total_kg
           (spec_transport_kg car (flight_km_per_year w) (bus_km_per_week w))
           (spec_electricity_kg (kwh_per_month w) g)
           (spec_diet_kg (beef_kg_per_week w) (chicken_kg_per_week w))
           (spec_shopping_kg usd)) (float_of_int 1000),
         Daily_kg = fdiv (spec_grand_total_kg
           (spec_transport_kg car (flight_km_per_year w) (bus_km_per_week w))
           (spec_electricity_kg (kwh_per_month w) g)
           (spec_diet_kg (beef_kg_per_week w) (chicken_kg_per_week w))
           (spec_shopping_kg usd)) (float_of_int 365),
         Weekly_kg = fdiv (spec_grand_total_kg
           (spec_transport_kg car (flight_km_per_year w) (bus_km_per_week w))
           (spec_electricity_kg (kwh_per_month w) g)
           (spec_diet_kg (beef_kg_per_week w) (chicken_kg_per_week w))
           (spec_shopping_kg usd)) (float_of_int 52),
         Monthly_kg = fdiv (spec_grand_total_kg
           (spec_transport_kg car (flight_km_per_year w) (bus_km_per_week w))
           (spec_electricity_kg (kwh_per_month w) g)
           (spec_diet_kg (beef_kg_per_week w) (chicken_kg_per_week w))
           (spec_shopping_kg usd)) (float_of_int 12)\<rparr>"
  using assms
  by (simp add: result_df_def transport_total_eq diet_total_eq shopping_total_eq
      electricity_total_eq grand_total_t_def truediv_constants grand_total_kg_def
      spec_grand_total_kg_def)

lemma decimal_constants:
  "decimal 404 3 = Num False 7277816997830722 (- 54)"
  "decimal 251 3 = Num False 4521614025879978 (- 54)"
  "decimal 270 1 = Num False 7599824371187712 (- 48)"
  "decimal 69 1 = Num False 7768709357214106 (- 50)"
  "decimal 115 3 = Num False 8286623314361713 (- 56)"
  "decimal 89 3 = Num False 6413125869375586 (- 56)"
  "decimal 6 1 = Num False 5404319552844595 (- 53)"
  "decimal 92 2 = Num False 8286623314361713 (- 53)"
  "decimal 80 2 = Num False 7205759403792794 (- 53)"
  by (simp_all add: float_eval)

lemma positive_constants:
  "positive_constant (decimal 404 3)" "positive_constant (decimal 251 3)"
  "positive_constant (decimal 270 1)" "positive_constant (decimal 69 1)"
  "positive_constant (decimal 115 3)" "positive_constant (decimal 89 3)"
  "positive_constant (decimal 6 1)" "positive_constant (decimal 92 2)"
  "positive_constant (decimal 80 2)"
  "positive_constant (float_of_int 12)" "positive_constant (float_of_int 52)"
  "positive_constant (float_of_int 365)" "positive_constant (float_of_int 1000)"
  by (simp_all only: decimal_constants int_constants positive_constant_def
      non_negative_simps is_finite_def is_zero.simps double.case) simp_all

lemma non_negative_scaled:
  "non_negative x \<Longrightarrow> positive_constant c \<Longrightarrow> non_negative (fmul x c)"
  by (rule non_negative_fmul) (auto simp: positive_constant_def is_finite_def)

lemma non_negative_quotient:
  "non_negative x \<Longrightarrow> positive_constant c \<Longrightarrow> non_negative (fdiv x c)"
  by (rule non_negative_fdiv) (auto simp: positive_constant_def)

lemma non_negative_transport:
  "non_negative car \<Longrightarrow> non_negative f \<Longrightarrow> non_negative b
   \<Longrightarrow> non_negative (spec_transport_kg car f b)"
  by (simp add: spec_transport_kg_def non_negative_fadd non_negative_scaled positive_constants)

lemma non_negative_diet:
  "non_negative b \<Longrightarrow> non_negative c \<Longrightarrow> non_negative (spec_diet_kg b c)"
  by (simp add: spec_diet_kg_def non_negative_fadd non_negative_scaled positive_constants)

lemma non_negative_shopping: "non_negative u \<Longrightarrow> non_negative (spec_shopping_kg u)"
  by (simp add: spec_shopping_kg_def non_negative_scaled positive_constants)

lemma non_negative_electricity:
  assumes "non_negative k" and "non_negative g" and "is_finite g"
    and "\<not> (fmul k (float_of_int 12) = Infinity False \<and> is_zero g)"
  shows "non_negative (spec_electricity_kg k g)"
  unfolding spec_electricity_kg_def
  using assms
  by (intro non_negative_fmul non_negative_scaled positive_constants)
    (auto simp: is_finite_def)

lemma non_negative_grand_total:
  "non_negative t \<Longrightarrow> non_negative e \<Longrightarrow> non_negative d \<Longrightarrow> non_negative s
   \<Longrightarrow> non_negative (spec_grand_total_kg t e d s)"
  by (simp add: spec_grand_total_kg_def non_negative_fadd)

lemma fadd_NaN [simp]: "fadd x NaN = NaN"
  by (cases x) simp_all

lemma fmul_NaN [simp]: "fmul x NaN = NaN"
  by (cases x) simp_all

lemma fdiv_NaN [simp]: "fdiv NaN y = NaN"
  by simp

lemma electricity_NaN:
  "fmul k (float_of_int 12) = Infinity False \<Longrightarrow> is_zero g
   \<Longrightarrow> spec_electricity_kg k g = NaN"
  by (cases g) (simp_all add: spec_electricity_kg_def)

lemma grand_total_NaN: "spec_grand_total_kg t NaN d s = NaN"
  by (simp add: spec_grand_total_kg_def)

lemma at_least_one_non_negative: "fge r (decimal 10 1) \<Longrightarrow> non_negative r"
proof (cases r)
  case (Num s m e)
  show "fge r (decimal 10 1) \<Longrightarrow> non_negative r"
  proof (cases s)
    case True
    assume "fge r (decimal 10 1)"
    with Num True have "(4503599627370496::int) * 2 ^ nat (- 52 - min (- 52) e)
        \<le> - int m * 2 ^ nat (e - min (- 52) e)"
      by (simp add: fge_def threshold_constants aligned_def signed_def)
    moreover have "(0::int) < 4503599627370496 * 2 ^ nat (- 52 - min (- 52) e)"
      by simp
    moreover have "- int m * 2 ^ nat (e - min (- 52) e) \<le> 0"
      by (simp add: mult_le_0_iff)
    ultimately show ?thesis by linarith
  next
    case False
    then show ?thesis using Num by simp
  qed
next
  case (Infinity s)
  then show "fge r (decimal 10 1) \<Longrightarrow> non_negative r"
    by (simp add: fge_def threshold_constants)
next
  case NaN
  then show "fge r (decimal 10 1) \<Longrightarrow> non_negative r"
    by (simp add: fge_def threshold_constants)
qed

lemma valid_car:
  assumes "valid_sidebar w"
  shows "\<exists>car. car_per_week_kg w = Inr car \<and> non_negative car"
  using assms
  by (simp add: valid_sidebar_def number_input_min0_def car_per_week_kg_def factor_lookups
      miles_per_week_def km_per_week_def non_negative_scaled positive_constants)

lemma valid_grid:
  assumes "valid_sidebar w"
  shows "\<exists>g. selected_grid_factor w = Inr (Some g) \<and> non_negative g \<and> is_finite g
    \<and> (if country_choice w = Custom then g = custom_grid_widget w else \<not> is_zero g)"
proof (cases "country_choice w = Custom")
  case True
  then show ?thesis
    using assms by (simp add: valid_sidebar_def number_input_min0_def selected_grid_factor_def)
next
  case False
  with assms have "country_choice w = ''Global average'' \<or> country_choice w = ''Nigeria''"
    by (auto simp: valid_sidebar_def COUNTRY_GRID_FACTORS_def split: if_splits)
  then show ?thesis
    using False positive_constants(8,9)
    by (auto simp: selected_grid_factor_def getitem_def COUNTRY_GRID_FACTORS_def
        positive_constant_def)
qed

lemma valid_spend:
  assumes "valid_sidebar w"
  shows "\<exists>usd. spend_usd w = Inr usd \<and> non_negative usd"
proof (cases "currency w = ''USD''")
  case True
  then show ?thesis
    using assms by (simp add: valid_sidebar_def number_input_min0_def spend_usd_def)
next
  case False
  from assms have fx: "fge (fx_rate w) (decimal 10 1)" "is_finite (fx_rate w)"
    and ngn: "non_negative (ngn_per_month w)"
    by (simp_all add: valid_sidebar_def number_input_min0_def)
  have "non_negative (fdiv (ngn_per_month w) (fx_rate w))"
    using ngn fx at_least_one_nonzero [OF fx(1)] at_least_one_non_negative [OF fx(1)]
    by (intro non_negative_fdiv)
  then show ?thesis
    using False at_least_one_nonzero [OF fx(1)] by (simp add: spend_usd_def py_truediv_def)
qed

lemma valid_inputs:
  assumes "valid_sidebar w"
  shows "non_negative (flight_km_per_year w)" "non_negative (bus_km_per_week w)"
    "non_negative (kwh_per_month w)" "non_negative (beef_kg_per_week w)"
    "non_negative (chicken_kg_per_week w)"
  using assms by (simp_all add: valid_sidebar_def number_input_min0_def)

lemma overflow_normalised:
  "car_per_week_kg overflow_sidebar = Inr (fmul (float_of_int 80) (decimal 251 3))"
  "selected_grid_factor overflow_sidebar = Inr (Some zero)"
  "spend_usd overflow_sidebar = Inr (fdiv (float_of_int 150000) (float_of_int 1500))"
  using default_normalised
  by (simp_all add: overflow_sidebar_def car_per_week_kg_def selected_grid_factor_def
      spend_usd_def miles_per_week_def km_per_week_def default_sidebar_def)

lemma default_valid: "valid_sidebar default_sidebar"
  by (simp add: valid_sidebar_def default_sidebar_def number_input_min0_def
      COUNTRY_GRID_FACTORS_def non_negative_round float_of_int_def decimal_def)
    (simp add: float_eval is_finite_def fge_def)

lemma overflow_valid: "valid_sidebar overflow_sidebar"
  using default_valid
  by (simp add: valid_sidebar_def overflow_sidebar_def default_sidebar_def
      number_input_min0_def COUNTRY_GRID_FACTORS_def non_negative_round float_of_int_def)
    (simp add: float_eval is_finite_def)

text \<open>
  Claim C10, as the code has it. For inputs within the widgets' constraints the run
  returns its quantities; the transport, diet and shopping subtotals are non-negative;
  and the electricity subtotal, the grand total in kg and in tonnes and the daily, weekly
  and monthly projections are non-negative too, unless twelve times the monthly kWh
  overflows to infinity while the custom grid factor is zero: then all six are NaN.
\<close>

theorem C10_non_negative_unless_overflow:
  assumes "valid_sidebar w"
  shows "\<exists>r. result_df w = Inr r
     \<and> non_negative (Transport_kg r) \<and> non_negative (Diet_kg r)
     \<and> non_negative (Shopping_kg r)
     \<and> (if electricity_overflow w
        then Electricity_kg r = NaN \<and> Annual_kg r = NaN \<and> Annual_tonnes r = NaN
          \<and> Daily_kg r = NaN \<and> Weekly_kg r = NaN \<and> Monthly_kg r = NaN
        else non_negative (Electricity_kg r) \<and> non_negative (Annual_kg r)
          \<and> non_negative (Annual_tonnes r) \<and> non_negative (Daily_kg r)
          \<and> non_negative (Weekly_kg r) \<and> non_negative (Monthly_kg r))"
proof -
  obtain car where car: "car_per_week_kg w = Inr car" "non_negative car"
    using valid_car [OF assms] by blast
  obtain g where g: "selected_grid_factor w = Inr (Some g)" "non_negative g" "is_finite g"
      "if country_choice w = Custom then g = custom_grid_widget w else \<not> is_zero g"
    using valid_grid [OF assms] by blast
  obtain usd where usd: "spend_usd w = Inr usd" "non_negative usd"
    using valid_spend [OF assms] by blast
  note r = result_df_eq [OF car(1) g(1) usd(1)]
  let ?t = "spec_transport_kg car (flight_km_per_year w) (bus_km_per_week w)"
  let ?e = "spec_electricity_kg (kwh_per_month w) g"
  let ?d = "spec_diet_kg (beef_kg_per_week w) (chicken_kg_per_week w)"
  let ?s = "spec_shopping_kg usd"
  have t: "non_negative ?t"
    using car(2) valid_inputs [OF assms] by (simp add: non_negative_transport)
  have d: "non_negative ?d"
    using valid_inputs [OF assms] by (simp add: non_negative_diet)
  have s: "non_negative ?s"
    using usd(2) by (simp add: non_negative_shopping)
  show ?thesis
  proof (cases "electricity_overflow w")
    case True
    with g(4) have "?e = NaN"
      by (simp add: electricity_overflow_def electricity_NaN)
    then show ?thesis
      using True t d s by (simp add: r grand_total_NaN)
  next
    case False
    with g(4) have "\<not> (fmul (kwh_per_month w) (float_of_int 12) = Infinity False \<and> is_zero g)"
      by (auto simp: electricity_overflow_def split: if_splits)
    then have e: "non_negative ?e"
      using valid_inputs(3) [OF assms] g(2,3) by (simp add: non_negative_electricity)
    have "non_negative (spec_grand_total_kg ?t ?e ?d ?s)"
      using t e d s by (rule non_negative_grand_total)
    then show ?thesis
      using False t d s e by (simp add: r non_negative_quotient positive_constants)
  qed
qed

theorem C10_non_negative_unless_overflow_witness:
  "valid_sidebar default_sidebar \<and> \<not> electricity_overflow default_sidebar
   \<and> (\<exists>r. result_df default_sidebar = Inr r
      \<and> non_negative (Transport_kg r) \<and> non_negative (Electricity_kg r)
      \<and> non_negative (Diet_kg r) \<and> non_negative (Shopping_kg r)
      \<and> non_negative (Annual_kg r) \<and> non_negative (Annual_tonnes r)
      \<and> non_negative (Daily_kg r) \<and> non_negative (Weekly_kg r)
      \<and> non_negative (Monthly_kg r))"
proof -
  have quiet: "\<not> electricity_overflow default_sidebar"
    by (simp add: electricity_overflow_def default_sidebar_def Custom_def)
  from C10_non_negative_unless_overflow [OF default_valid] quiet default_valid
  show ?thesis by auto
qed

text \<open>
  The claim as stated fails at 1e308 kWh a month with a custom grid factor of 0.0, both
  within the constraints: twelve times the kWh is infinite, its product with 0.0 is NaN,
  and so are the grand total, the tonnes and the three projections. NaN is not
  \<open>\<ge> 0\<close>.
\<close>

theorem C10_counterexample:
  "valid_sidebar overflow_sidebar
   \<and> kwh_per_month overflow_sidebar = Num False 5010420900022432 971
   \<and> is_double (kwh_per_month overflow_sidebar)
   \<and> fmul (kwh_per_month overflow_sidebar) (float_of_int 12) = Infinity False
   \<and> selected_grid_factor overflow_sidebar = Inr (Some zero)
   \<and> result_df overflow_sidebar =
       Inr \<lparr>Transport_kg =
              spec_transport_kg (fmul (float_of_int 80) (decimal 251 3)) (float_of_int 1000)
                (float_of_int 10),
            Electricity_kg = NaN,
            Diet_kg = spec_diet_kg (decimal 3 1) (decimal 5 1),
            Shopping_kg = spec_shopping_kg (fdiv (float_of_int 150000) (float_of_int 1500)),
            Annual_kg = NaN, Annual_tonnes = NaN, Daily_kg = NaN, Weekly_kg = NaN,
            Monthly_kg = NaN\<rparr>
   \<and> \<not> non_negative NaN"
proof -
  have kwh: "kwh_per_month overflow_sidebar = Num False 5010420900022432 971"
    by (simp add: overflow_sidebar_def float_eval)
  have product: "fmul (Num False 5010420900022432 971) (float_of_int 12) = Infinity False"
    by (simp add: float_eval)
  have electricity: "spec_electricity_kg (Num False 5010420900022432 971) zero = NaN"
    using product by (simp add: spec_electricity_kg_def zero_eq)
  have others: "flight_km_per_year overflow_sidebar = float_of_int 1000"
    "bus_km_per_week overflow_sidebar = float_of_int 10"
    "beef_kg_per_week overflow_sidebar = decimal 3 1"
    "chicken_kg_per_week overflow_sidebar = decimal 5 1"
    by (simp_all add: overflow_sidebar_def default_sidebar_def)
  show ?thesis
    using overflow_valid overflow_normalised(2) product
    by (simp add: result_df_eq [OF overflow_normalised] kwh others electricity
        grand_total_NaN is_double_def)
qed

section \<open>The default run\<close>

text \<open>
  With the widgets at their defaults (80 km by car, 1000 km of flights, 10 km by bus,
  150 kWh at 0.92, 0.3 kg of beef, 0.5 kg of chicken, 150000 NGN at 1500) the run gives
  1205.4399999999998 kg for transport, 1656.0 for electricity, 600.6 for diet, 720.0 for
  shopping and 4182.039999999999 kg in total, that is 4.182039999999999 t, and
  11.457643835616436, 80.42384615384614 and 348.5033333333333 kg a day, a week and a
  month: the floats below.
\<close>

lemma default_fields:
  "flight_km_per_year default_sidebar = float_of_int 1000"
  "bus_km_per_week default_sidebar = float_of_int 10"
  "kwh_per_month default_sidebar = float_of_int 150"
  "beef_kg_per_week default_sidebar = decimal 3 1"
  "chicken_kg_per_week default_sidebar = decimal 5 1"
  by (simp_all add: default_sidebar_def)

lemma default_subtotals:
  "spec_transport_kg (fmul (float_of_int 80) (decimal 251 3)) (float_of_int 1000)
     (float_of_int 10) = Num False 5301581186345205 (- 42)"
  "spec_electricity_kg (float_of_int 150) (decimal 92 2) = Num False 7283165022388224 (- 42)"
  "spec_diet_kg (decimal 3 1) (decimal 5 1) = Num False 5282933469138125 (- 43)"
  "spec_shopping_kg (fdiv (float_of_int 150000) (float_of_int 1500))
     = Num False 6333186975989760 (- 43)"
  by (simp_all add: spec_transport_kg_def spec_electricity_kg_def spec_diet_kg_def
      spec_shopping_kg_def float_eval)

lemma default_totals:
  "spec_grand_total_kg (Num False 5301581186345205 (- 42)) (Num False 7283165022388224 (- 42))
     (Num False 5282933469138125 (- 43)) (Num False 6333186975989760 (- 43))
   = Num False 4598201607824342 (- 40)"
  "fdiv (Num False 4598201607824342 (- 40)) (float_of_int 1000)
   = Num False 4708558446412126 (- 50)"
  "fdiv (Num False 4598201607824342 (- 40)) (float_of_int 365)
   = Num False 6450080063578255 (- 49)"
  "fdiv (Num False 4598201607824342 (- 40)) (float_of_int 52)
   = Num False 5659325055783806 (- 46)"
  "fdiv (Num False 4598201607824342 (- 40)) (float_of_int 12)
   = Num False 6130935477099123 (- 44)"
  by (simp_all add: spec_grand_total_kg_def float_eval)

lemma default_run:
  "result_df default_sidebar =
     Inr \<lparr>Transport_kg = Num False 5301581186345205 (- 42),
          Electricity_kg = Num False 7283165022388224 (- 42),
          Diet_kg = Num False 5282933469138125 (- 43),
          Shopping_kg = Num False 6333186975989760 (- 43),
          Annual_kg = Num False 4598201607824342 (- 40),
          Annual_tonnes = Num False 4708558446412126 (- 50),
          Daily_kg = Num False 6450080063578255 (- 49),
          Weekly_kg = Num False 5659325055783806 (- 46),
          Monthly_kg = Num False 6130935477099123 (- 44)\<rparr>"
  by (simp only: result_df_eq [OF default_normalised] default_fields default_subtotals
      default_totals)

end
